theory Spec2Isabelle
  imports Complex_Main
begin

section \<open>The autodiff core of minitorch (src/minitorch/autodiff.py)\<close>

text \<open>
  Python objects are mutable and shared, so variables live in an explicit store and
  are named by references. Every reference of a running Python program points to a
  live object, which the store reflects by being a total function. Payloads (the
  numbers held by variables, derivatives and gradients) are modelled as reals.
  A raised exception is the \<open>Inl\<close> side of a sum.
\<close>

subsection \<open>Values, errors, operands\<close>

type_synonym ref = nat

datatype error =
    AssertionError string
  | AttributeError
  | IndexError
  | KeyError
  | TypeError

text \<open>An argument of an operation: a \<open>Variable\<close> object or any other raw value.\<close>

datatype operand = Var ref | Raw real

text \<open>What a \<open>backward\<close> hook returns: one number, or a tuple of numbers.\<close>

datatype returned = Single real | Sequence "real list"

text \<open>What \<open>unwrap_tuple\<close> returns: the lone element, or the tuple unchanged.\<close>

datatype unwrapped = Lone real | Tuple "real list"

subsection \<open>Context\<close>

record Context =
  u_saved_values :: "real list option"
  no_grad :: bool

definition Context_init :: "bool \<Rightarrow> Context" where
  "Context_init ng = \<lparr>u_saved_values = None, no_grad = ng\<rparr>"

definition save_for_backward :: "Context \<Rightarrow> real list \<Rightarrow> Context" where
  "save_for_backward self vals =
     (if no_grad self then self else self\<lparr>u_saved_values := Some vals\<rparr>)"

definition wrap_tuple :: "returned \<Rightarrow> real list" where
  "wrap_tuple x = (case x of Sequence xs \<Rightarrow> xs | Single v \<Rightarrow> [v])"

definition unwrap_tuple :: "real list \<Rightarrow> unwrapped" where
  "unwrap_tuple x = (if length x = 1 then Lone (x ! 0) else Tuple x)"

definition saved_values :: "Context \<Rightarrow> error + unwrapped" where
  "saved_values self =
     (if no_grad self then Inl (AssertionError ''Doesn't require grad'')
      else case u_saved_values self of
             None \<Rightarrow> Inl (AssertionError ''Did you forget to save values?'')
           | Some vs \<Rightarrow> Inr (unwrap_tuple vs))"

subsection \<open>Operations, History, Variable\<close>

text \<open>
  The hooks of a concrete subclass of \<open>FunctionBase\<close> are parameters of the model.
  \<open>forward\<close> receives the context object and may change it, so it returns it;
  \<open>backward\<close> receives whatever the history holds as context, which may be \<open>None\<close>.
  \<open>data_type\<close> stands for the test \<open>isinstance(c, cls.data_type)\<close>.
\<close>

record FunctionBase =
  forward :: "Context \<Rightarrow> real list \<Rightarrow> error + (Context \<times> real)"
  backward :: "Context option \<Rightarrow> real \<Rightarrow> error + returned"
  data_type :: "real \<Rightarrow> bool"
  data :: "real \<Rightarrow> real"

record History =
  last_fn :: "FunctionBase option"
  ctx :: "Context option"
  inputs :: "operand list option"

definition History_init ::
  "FunctionBase option \<Rightarrow> Context option \<Rightarrow> operand list option \<Rightarrow> History" where
  "History_init f c i = \<lparr>last_fn = f, ctx = c, inputs = i\<rparr>"

text \<open>
  \<open>get_data\<close> is the payload that a concrete subclass of \<open>Variable\<close> stores and
  returns from its method of that name.
\<close>

record Variable =
  history :: "History option"
  u_derivative :: "real option"
  unique_id :: string
  name :: string
  used :: nat
  get_data :: real

type_synonym heap = "ref \<Rightarrow> Variable"

record state =
  variable_count :: nat
  heap :: heap

subsection \<open>Decimal rendering, as Python's str on a non-negative int\<close>

definition digit_char :: "nat \<Rightarrow> char" where
  "digit_char d = ''0123456789'' ! d"

fun str :: "nat \<Rightarrow> string" where
  "str n = (if n < 10 then [digit_char n] else str (n div 10) @ [digit_char (n mod 10)])"

subsection \<open>Variable\<close>

definition blank :: Variable where
  "blank = \<lparr>history = None, u_derivative = None, unique_id = [], name = [], used = 0,
            get_data = 0\<rparr>"

text \<open>The module starts with \<open>variable_count = 1\<close> and no objects.\<close>

definition initial :: state where
  "initial = \<lparr>variable_count = 1, heap = (\<lambda>_. blank)\<rparr>"

text \<open>
  \<open>Variable.__init__\<close>, together with the payload the subclass constructor stores.
  The new object is placed at the address given by the new counter value.
\<close>

definition Variable_init ::
  "real \<Rightarrow> History option \<Rightarrow> string option \<Rightarrow> state \<Rightarrow> state \<times> ref" where
  "Variable_init raw h nm s =
     (let c = variable_count s + 1;
          uid = ''Variable'' @ str c;
          v = \<lparr>history = h, u_derivative = None, unique_id = uid,
               name = (case nm of Some n \<Rightarrow> n | None \<Rightarrow> uid),
               used = 0, get_data = raw\<rparr>
      in (s\<lparr>variable_count := c, heap := (heap s)(c := v)\<rparr>, c))"

text \<open>The method \<open>requires_grad_\<close> (a name cannot end in an underscore here).\<close>

definition requires_grad :: "ref \<Rightarrow> bool \<Rightarrow> heap \<Rightarrow> heap" where
  "requires_grad self val h = h(self := (h self)\<lparr>history := Some (History_init None None None)\<rparr>)"

definition derivative :: "Variable \<Rightarrow> real option" where
  "derivative self = u_derivative self"

definition is_leaf :: "Variable \<Rightarrow> error + bool" where
  "is_leaf self =
     (case history self of
        None \<Rightarrow> Inl AttributeError
      | Some hist \<Rightarrow> Inr (last_fn hist = None))"

definition zeros :: "Variable \<Rightarrow> real" where
  "zeros self = 0.0"

definition accumulate_derivative :: "ref \<Rightarrow> real \<Rightarrow> heap \<Rightarrow> heap" where
  "accumulate_derivative self val h =
     (let h1 = (if u_derivative (h self) = None
                then h(self := (h self)\<lparr>u_derivative := Some (zeros (h self))\<rparr>)
                else h)
      in h1(self := (h1 self)\<lparr>u_derivative := map_option (\<lambda>d. d + val) (u_derivative (h1 self))\<rparr>))"

definition expand :: "Variable \<Rightarrow> real \<Rightarrow> real" where
  "expand self x = x"

definition is_constant :: "heap \<Rightarrow> operand \<Rightarrow> bool" where
  "is_constant h val = (case val of Raw _ \<Rightarrow> True | Var r \<Rightarrow> history (h r) = None)"

subsection \<open>FunctionBase.apply\<close>

text \<open>
  The loop over \<open>vals\<close>: it collects the raw payloads, raises \<open>need_grad\<close> at a
  variable with a history, and counts the use of every variable.
\<close>

fun apply_loop ::
  "operand list \<Rightarrow> real list \<times> bool \<times> heap \<Rightarrow> real list \<times> bool \<times> heap" where
  "apply_loop [] acc = acc"
| "apply_loop (v # vs) (raw_vals, need_grad, h) =
     (case v of
        Var r \<Rightarrow>
          (let need_grad1 = (if history (h r) \<noteq> None then True else need_grad);
               h1 = h(r := (h r)\<lparr>used := used (h r) + 1\<rparr>)
           in apply_loop vs (raw_vals @ [get_data (h1 r)], need_grad1, h1))
      | Raw x \<Rightarrow> apply_loop vs (raw_vals @ [x], need_grad, h))"

text \<open>
  Modelled from the spec: the factory \<open>variable(raw, history)\<close> of a concrete
  operation, which the base class leaves unimplemented, "produces the concrete Node
  subtype wrapping raw and optional history".
\<close>

definition variable :: "real \<Rightarrow> History option \<Rightarrow> state \<Rightarrow> state \<times> ref" where
  "variable raw h s = Variable_init raw h None s"

text \<open>
  \<open>apply\<close>, returning beside the new variable the context object of the invocation
  as \<open>forward\<close> left it (Python keeps it only inside the history).
\<close>

definition apply_run ::
  "FunctionBase \<Rightarrow> operand list \<Rightarrow> state \<Rightarrow> error + (Context \<times> state \<times> ref)" where
  "apply_run cls vals s =
     (case apply_loop vals ([], False, heap s) of
        (raw_vals, need_grad, h1) \<Rightarrow>
          (let ctx0 = Context_init (\<not> need_grad) in
           case forward cls ctx0 raw_vals of
             Inl e \<Rightarrow> Inl e
           | Inr (ctx1, c) \<Rightarrow>
               if \<not> data_type cls c then Inl (AssertionError ''Expected return typ'')
               else
                 (let back = (if need_grad
                              then Some (History_init (Some cls) (Some ctx1) (Some vals))
                              else None)
                  in Inr (ctx1, variable (data cls c) back (s\<lparr>heap := h1\<rparr>)))))"

definition FunctionBase_apply ::
  "FunctionBase \<Rightarrow> operand list \<Rightarrow> state \<Rightarrow> error + (state \<times> ref)" where
  "FunctionBase_apply cls vals s = map_sum id snd (apply_run cls vals s)"

subsection \<open>FunctionBase.chain_rule\<close>

text \<open>
  The loop over \<open>range(len(inputs))\<close>. Reading \<open>backward_val[i]\<close> beyond its length
  raises \<open>IndexError\<close>. A raw value is constant, so the branch that would look up
  \<open>expand\<close> on one is never taken; Python would raise \<open>AttributeError\<close> there.
\<close>

fun chain_rule_loop ::
  "heap \<Rightarrow> operand list \<Rightarrow> real list \<Rightarrow> nat list \<Rightarrow> (ref \<times> real) list
     \<Rightarrow> error + (ref \<times> real) list" where
  "chain_rule_loop h inps backward_val [] result = Inr result"
| "chain_rule_loop h inps backward_val (i # rest) result =
     (if \<not> is_constant h (inps ! i) then
        (case inps ! i of
           Raw _ \<Rightarrow> Inl AttributeError
         | Var r \<Rightarrow>
             if i < length backward_val
             then chain_rule_loop h inps backward_val rest
                    (result @ [(r, expand (h r) (backward_val ! i))])
             else Inl IndexError)
      else chain_rule_loop h inps backward_val rest result)"

definition chain_rule ::
  "FunctionBase \<Rightarrow> Context option \<Rightarrow> operand list option \<Rightarrow> real \<Rightarrow> heap
     \<Rightarrow> error + (ref \<times> real) list" where
  "chain_rule cls c inps d_output h =
     (case backward cls c d_output of
        Inl e \<Rightarrow> Inl e
      | Inr backward_val0 \<Rightarrow>
          (let backward_val = wrap_tuple backward_val0 in
           case inps of
             None \<Rightarrow> Inl TypeError
           | Some ins \<Rightarrow> chain_rule_loop h ins backward_val [0 ..< length ins] []))"

definition backprop_step :: "History \<Rightarrow> real \<Rightarrow> heap \<Rightarrow> error + (ref \<times> real) list" where
  "backprop_step self d_output h =
     (case last_fn self of
        None \<Rightarrow> Inl AttributeError
      | Some f \<Rightarrow> chain_rule f (ctx self) (inputs self) d_output h)"

subsection \<open>backpropagate\<close>

text \<open>
  The state of the \<open>while\<close> loop. One step is one test of the loop condition and,
  if the queue is not empty, one run of the loop body. An exception stops the loop
  and leaves the store as it is at that moment.
\<close>

datatype status = Running | Finished | Raised error

record config =
  queue :: "ref list"
  dict_deriv :: "string \<rightharpoonup> real"
  store :: heap
  status :: status

text \<open>The inner loop over the pairs that \<open>chain_rule\<close> returned.\<close>

fun record_pairs ::
  "heap \<Rightarrow> (ref \<times> real) list \<Rightarrow> (string \<rightharpoonup> real) \<times> ref list \<Rightarrow> (string \<rightharpoonup> real) \<times> ref list" where
  "record_pairs h [] acc = acc"
| "record_pairs h (v # v_d) (dd, q) =
     record_pairs h v_d (dd(unique_id (h (fst v)) \<mapsto> snd v), q @ [fst v])"

definition bp_step :: "config \<Rightarrow> config" where
  "bp_step c =
     (if status c \<noteq> Running then c
      else case queue c of
        [] \<Rightarrow> c\<lparr>status := Finished\<rparr>
      | Variable_1 # q \<Rightarrow>
          (let c1 = c\<lparr>queue := q\<rparr>; h = store c in
           case is_leaf (h Variable_1) of
             Inl e \<Rightarrow> c1\<lparr>status := Raised e\<rparr>
           | Inr True \<Rightarrow>
               (case dict_deriv c (unique_id (h Variable_1)) of
                  None \<Rightarrow> c1\<lparr>status := Raised KeyError\<rparr>
                | Some d \<Rightarrow> c1\<lparr>store := accumulate_derivative Variable_1 d h\<rparr>)
           | Inr False \<Rightarrow>
               (case history (h Variable_1) of
                  None \<Rightarrow> c1\<lparr>status := Raised AttributeError\<rparr>
                | Some hist \<Rightarrow>
                    (case last_fn hist of
                       None \<Rightarrow> c1\<lparr>status := Raised AttributeError\<rparr>
                     | Some f \<Rightarrow>
                         (case dict_deriv c (unique_id (h Variable_1)) of
                            None \<Rightarrow> c1\<lparr>status := Raised KeyError\<rparr>
                          | Some d \<Rightarrow>
                              (case chain_rule f (ctx hist) (inputs hist) d h of
                                 Inl e \<Rightarrow> c1\<lparr>status := Raised e\<rparr>
                               | Inr v_d \<Rightarrow>
                                   (case record_pairs h v_d (dict_deriv c, q) of
                                      (dd, q1) \<Rightarrow> c1\<lparr>queue := q1, dict_deriv := dd\<rparr>)))))))"

definition bp_start :: "ref \<Rightarrow> real \<Rightarrow> heap \<Rightarrow> config" where
  "bp_start var deriv h =
     \<lparr>queue = [var], dict_deriv = [unique_id (h var) \<mapsto> deriv], store = h, status = Running\<rparr>"

text \<open>\<open>backpropagate\<close> after at most \<open>n\<close> steps of its loop.\<close>

fun bp_run :: "nat \<Rightarrow> config \<Rightarrow> config" where
  "bp_run 0 c = c"
| "bp_run (Suc n) c = bp_run n (bp_step c)"

definition backpropagate :: "nat \<Rightarrow> ref \<Rightarrow> real \<Rightarrow> heap \<Rightarrow> config" where
  "backpropagate n var deriv h = bp_run n (bp_start var deriv h)"

text \<open>\<open>Variable.backward\<close>: the seed defaults to \<open>1.0\<close>.\<close>

definition Variable_backward :: "nat \<Rightarrow> ref \<Rightarrow> real option \<Rightarrow> heap \<Rightarrow> config" where
  "Variable_backward n self d_output h =
     backpropagate n self (case d_output of None \<Rightarrow> 1.0 | Some d \<Rightarrow> d) h"

subsection \<open>An invariant of the loop\<close>

text \<open>Every variable waiting in the queue has a history.\<close>

definition tracked_queue :: "config \<Rightarrow> bool" where
  "tracked_queue c = (\<forall>r\<in>set (queue c). history (store c r) \<noteq> None)"

subsection \<open>Concrete operations and programs\<close>

text \<open>
  \<open>square\<close>: \<open>forward(ctx, a)\<close> saves \<open>a\<close> and returns \<open>a * a\<close>;
  \<open>backward(ctx, d)\<close> returns the tuple \<open>(2 * a * d,)\<close>.
\<close>

definition square :: FunctionBase where
  "square =
     \<lparr>forward = (\<lambda>c raw_vals. case raw_vals of
                   [a] \<Rightarrow> Inr (save_for_backward c [a], a * a)
                 | _ \<Rightarrow> Inl TypeError),
      backward = (\<lambda>c d. case c of
                   None \<Rightarrow> Inl AttributeError
                 | Some c1 \<Rightarrow>
                     (case saved_values c1 of
                        Inl e \<Rightarrow> Inl e
                      | Inr (Lone a) \<Rightarrow> Inr (Sequence [2 * a * d])
                      | Inr (Tuple _) \<Rightarrow> Inl TypeError)),
      data_type = (\<lambda>_. True),
      data = (\<lambda>x. x)\<rparr>"

text \<open>\<open>add\<close>: \<open>forward(ctx, x, y) = x + y\<close>, \<open>backward(ctx, d) = (d, d)\<close>.\<close>

definition add :: FunctionBase where
  "add =
     \<lparr>forward = (\<lambda>c raw_vals. case raw_vals of
                   [x, y] \<Rightarrow> Inr (c, x + y)
                 | _ \<Rightarrow> Inl TypeError),
      backward = (\<lambda>c d. Inr (Sequence [d, d])),
      data_type = (\<lambda>_. True),
      data = (\<lambda>x. x)\<rparr>"

text \<open>
  \<open>scale k\<close>: \<open>forward(ctx, a) = k * a\<close>; \<open>backward(ctx, d)\<close> returns the bare
  number \<open>k * d\<close>, not a tuple.
\<close>

definition scale :: "real \<Rightarrow> FunctionBase" where
  "scale k =
     \<lparr>forward = (\<lambda>c raw_vals. case raw_vals of
                   [a] \<Rightarrow> Inr (c, k * a)
                 | _ \<Rightarrow> Inl TypeError),
      backward = (\<lambda>c d. Inr (Single (k * d))),
      data_type = (\<lambda>_. True),
      data = (\<lambda>x. x)\<rparr>"

text \<open>A user-created variable \<open>a = 2.0\<close>, before and after \<open>a.requires_grad_(True)\<close>.\<close>

definition leaf_state :: state where
  "leaf_state = fst (Variable_init 2.0 None None initial)"

definition tracked_heap :: heap where
  "tracked_heap = requires_grad 2 True (heap leaf_state)"

definition tracked_state :: state where
  "tracked_state = leaf_state\<lparr>heap := tracked_heap\<rparr>"

text \<open>
  The program \<open>b = square(a); b.backward(); b.backward(1.0)\<close>, with \<open>n\<close> loop steps
  allowed to each call; it reports how each call ended and \<open>a.derivative\<close> after it.
\<close>

definition square_twice :: "nat \<Rightarrow> error + (status \<times> real option \<times> status \<times> real option)" where
  "square_twice n =
     (case FunctionBase_apply square [Var 2] tracked_state of
        Inl e \<Rightarrow> Inl e
      | Inr (s, b) \<Rightarrow>
          (let c1 = Variable_backward n b None (heap s);
               c2 = Variable_backward n b (Some 1.0) (store c1)
           in Inr (status c1, derivative (store c1 2), status c2, derivative (store c2 2))))"

text \<open>The store after \<open>b = square(a)\<close> (lemma \<open>square_apply_run\<close>).\<close>

definition square_heap :: heap where
  "square_heap = (\<lambda>_. blank)
     (2 := \<lparr>history = Some \<lparr>last_fn = None, ctx = None, inputs = None\<rparr>,
             u_derivative = None, unique_id = ''Variable2'', name = ''Variable2'',
             used = 1, get_data = 2\<rparr>,
      3 := \<lparr>history = Some \<lparr>last_fn = Some square,
                               ctx = Some \<lparr>u_saved_values = Some [2], no_grad = False\<rparr>,
                               inputs = Some [Var 2]\<rparr>,
             u_derivative = None, unique_id = ''Variable3'', name = ''Variable3'',
             used = 0, get_data = 4\<rparr>)"

text \<open>
  The diamond \<open>x = 1.0\<close> (grad-tracked), \<open>y = scale2(x)\<close>, \<open>z = scale3(x)\<close>,
  \<open>w = add(y, z)\<close>.
\<close>

definition diamond_graph :: "error + state" where
  "diamond_graph =
     (case Variable_init 1.0 None None initial of
        (s0, x) \<Rightarrow>
          (let s1 = s0\<lparr>heap := requires_grad x True (heap s0)\<rparr> in
           case FunctionBase_apply (scale 2) [Var x] s1 of
             Inl e \<Rightarrow> Inl e
           | Inr (s2, y) \<Rightarrow>
               (case FunctionBase_apply (scale 3) [Var x] s2 of
                  Inl e \<Rightarrow> Inl e
                | Inr (s3, z) \<Rightarrow>
                    (case FunctionBase_apply add [Var y, Var z] s3 of
                       Inl e \<Rightarrow> Inl e
                     | Inr (s4, w) \<Rightarrow> Inr s4))))"

text \<open>The store that \<open>diamond_graph\<close> builds (lemma \<open>diamond_graph_eq\<close>).\<close>

definition diamond_heap :: heap where
  "diamond_heap = (\<lambda>_. blank)
     (2 := \<lparr>history = Some \<lparr>last_fn = None, ctx = None, inputs = None\<rparr>,
             u_derivative = None, unique_id = ''Variable2'', name = ''Variable2'',
             used = 2, get_data = 1\<rparr>,
      3 := \<lparr>history = Some \<lparr>last_fn = Some (scale 2),
                               ctx = Some \<lparr>u_saved_values = None, no_grad = False\<rparr>,
                               inputs = Some [Var 2]\<rparr>,
             u_derivative = None, unique_id = ''Variable3'', name = ''Variable3'',
             used = 1, get_data = 2\<rparr>,
      4 := \<lparr>history = Some \<lparr>last_fn = Some (scale 3),
                               ctx = Some \<lparr>u_saved_values = None, no_grad = False\<rparr>,
                               inputs = Some [Var 2]\<rparr>,
             u_derivative = None, unique_id = ''Variable4'', name = ''Variable4'',
             used = 1, get_data = 3\<rparr>,
      5 := \<lparr>history = Some \<lparr>last_fn = Some add,
                               ctx = Some \<lparr>u_saved_values = None, no_grad = False\<rparr>,
                               inputs = Some [Var 3, Var 4]\<rparr>,
             u_derivative = None, unique_id = ''Variable5'', name = ''Variable5'',
             used = 0, get_data = 5\<rparr>)"

text \<open>
  A sum with a constant operand: \<open>p = 3.0\<close> grad-tracked, \<open>q = 5.0\<close> a variable that
  is never grad-tracked, \<open>r = add(p, q)\<close>.
\<close>

definition mixed_graph :: "error + state" where
  "mixed_graph =
     (case Variable_init 3.0 None None initial of
        (s0, p) \<Rightarrow>
          (let s1 = s0\<lparr>heap := requires_grad p True (heap s0)\<rparr> in
           case Variable_init 5.0 None None s1 of
             (s2, q) \<Rightarrow>
               (case FunctionBase_apply add [Var p, Var q] s2 of
                  Inl e \<Rightarrow> Inl e
                | Inr (s3, r) \<Rightarrow> Inr s3)))"

text \<open>The store that \<open>mixed_graph\<close> builds (lemma \<open>mixed_graph_eq\<close>).\<close>

definition mixed_heap :: heap where
  "mixed_heap = (\<lambda>_. blank)
     (2 := \<lparr>history = Some \<lparr>last_fn = None, ctx = None, inputs = None\<rparr>,
             u_derivative = None, unique_id = ''Variable2'', name = ''Variable2'',
             used = 1, get_data = 3\<rparr>,
      3 := \<lparr>history = None,
             u_derivative = None, unique_id = ''Variable3'', name = ''Variable3'',
             used = 1, get_data = 5\<rparr>,
      4 := \<lparr>history = Some \<lparr>last_fn = Some add,
                               ctx = Some \<lparr>u_saved_values = None, no_grad = False\<rparr>,
                               inputs = Some [Var 2, Var 3]\<rparr>,
             u_derivative = None, unique_id = ''Variable4'', name = ''Variable4'',
             used = 0, get_data = 8\<rparr>)"

section \<open>Auxiliary facts\<close>

subsection \<open>The concrete operations\<close>

lemma hooks:
  "forward square c [a] = Inr (save_for_backward c [a], a * a)"
  "backward square (Some c1) d =
     (case saved_values c1 of Inl e \<Rightarrow> Inl e | Inr (Lone a) \<Rightarrow> Inr (Sequence [2 * a * d])
      | Inr (Tuple _) \<Rightarrow> Inl TypeError)"
  "data_type square y" "data square y = y"
  "forward (scale k) c [a] = Inr (c, k * a)"
  "backward (scale k) co d = Inr (Single (k * d))"
  "data_type (scale k) y" "data (scale k) y = y"
  "forward add c [a, b] = Inr (c, a + b)"
  "backward add co d = Inr (Sequence [d, d])"
  "data_type add y" "data add y = y"
  by (simp_all add: square_def scale_def add_def)

lemma square_contract:
  "\<forall>c0 raws c1 y. forward square c0 raws = Inr (c1, y) \<longrightarrow>
                (\<exists>calls. c1 = foldl save_for_backward c0 calls)"
proof (intro allI impI)
  fix c0 raws c1 y
  assume "forward square c0 raws = Inr (c1, y)"
  then have "c1 = foldl save_for_backward c0 [[hd raws]]"
    by (auto simp: square_def split: list.splits)
  then show "\<exists>calls. c1 = foldl save_for_backward c0 calls" by blast
qed

subsection \<open>apply\<close>

lemma apply_loop_need_grad:
  "fst (snd (apply_loop vals (raws, ng, h))) = (ng \<or> (\<exists>x\<in>set vals. \<not> is_constant h x))"
proof (induction vals arbitrary: raws ng h)
  case Nil
  then show ?case by simp
next
  case (Cons v vs)
  show ?case
  proof (cases v)
    case (Var r)
    have "\<And>x. is_constant (h(r := (h r)\<lparr>used := used (h r) + 1\<rparr>)) x = is_constant h x"
      by (simp add: is_constant_def split: operand.splits)
    then show ?thesis using Var Cons.IH by (auto simp: Let_def is_constant_def)
  next
    case (Raw x)
    then show ?thesis using Cons.IH by (simp add: is_constant_def)
  qed
qed

lemma variable_history: "variable raw b s = (s', r) \<Longrightarrow> history (heap s' r) = b"
  by (auto simp: variable_def Variable_init_def Let_def)

lemma apply_run_history:
  assumes "apply_run cls vals s = Inr (c, s', r)"
  shows "history (heap s' r) =
           (if \<forall>x\<in>set vals. is_constant (heap s) x then None
            else Some (History_init (Some cls) (Some c) (Some vals)))"
proof -
  obtain raws ng h1 where L: "apply_loop vals ([], False, heap s) = (raws, ng, h1)"
    by (metis prod_cases3)
  have ng: "ng = (\<exists>x\<in>set vals. \<not> is_constant (heap s) x)"
    using apply_loop_need_grad [of vals "[]" False "heap s"] L by simp
  from assms L show ?thesis
    by (auto simp: apply_run_def Let_def ng split: sum.splits if_splits prod.splits
             dest!: variable_history)
qed

lemma apply_run_forward:
  assumes "apply_run cls vals s = Inr (c, s', r)"
  shows "\<exists>raws y. forward cls (Context_init (\<forall>x\<in>set vals. is_constant (heap s) x)) raws = Inr (c, y)"
proof -
  obtain raws ng h1 where L: "apply_loop vals ([], False, heap s) = (raws, ng, h1)"
    by (metis prod_cases3)
  have ng: "ng = (\<exists>x\<in>set vals. \<not> is_constant (heap s) x)"
    using apply_loop_need_grad [of vals "[]" False "heap s"] L by simp
  from assms L show ?thesis
    by (auto simp: apply_run_def Let_def ng split: sum.splits if_splits prod.splits)
qed

lemma apply_run_of_apply:
  "FunctionBase_apply cls vals s = Inr (s', r) \<Longrightarrow> \<exists>c. apply_run cls vals s = Inr (c, s', r)"
  by (auto simp: FunctionBase_apply_def map_sum_def split: sum.splits)

lemma foldl_save_no_grad: "no_grad (foldl save_for_backward c calls) = no_grad c"
  by (induction calls arbitrary: c) (simp_all add: save_for_backward_def)

subsection \<open>The stores of the concrete programs\<close>

lemma leaf_state_eq:
  "leaf_state = \<lparr>variable_count = 2,
     heap = (\<lambda>_. blank)(2 := \<lparr>history = None, u_derivative = None, unique_id = ''Variable2'',
                                name = ''Variable2'', used = 0, get_data = 2\<rparr>)\<rparr>"
  by (simp add: leaf_state_def Variable_init_def initial_def Let_def digit_char_def numeral_2_eq_2)

lemma tracked_heap_2:
  "tracked_heap 2 = \<lparr>history = Some \<lparr>last_fn = None, ctx = None, inputs = None\<rparr>,
      u_derivative = None, unique_id = ''Variable2'', name = ''Variable2'', used = 0,
      get_data = 2\<rparr>"
  by (simp add: tracked_heap_def requires_grad_def History_init_def leaf_state_eq)

lemma square_const_run:
  "apply_run square [Raw 3] initial =
     Inr (Context_init True, \<lparr>variable_count = 2,
           heap = (\<lambda>_. blank)(2 := \<lparr>history = None, u_derivative = None, unique_id = ''Variable2'',
                                name = ''Variable2'', used = 0, get_data = 9\<rparr>)\<rparr>, 2)"
  by (simp add: apply_run_def square_def variable_def Variable_init_def
        initial_def Let_def digit_char_def Context_init_def save_for_backward_def numeral_2_eq_2)

lemma square_apply_run:
  "apply_run square [Var 2] tracked_state =
     Inr (\<lparr>u_saved_values = Some [2], no_grad = False\<rparr>,
          \<lparr>variable_count = 3, heap = square_heap\<rparr>, 3)"
  by (simp add: apply_run_def hooks variable_def Variable_init_def
        tracked_state_def tracked_heap_def leaf_state_eq requires_grad_def History_init_def
        square_heap_def Let_def digit_char_def Context_init_def save_for_backward_def
        numeral_2_eq_2 numeral_3_eq_3)

lemma square_apply:
  "FunctionBase_apply square [Var 2] tracked_state =
     Inr (\<lparr>variable_count = 3, heap = square_heap\<rparr>, 3)"
  by (simp add: FunctionBase_apply_def square_apply_run)

lemma diamond_graph_eq: "diamond_graph = Inr \<lparr>variable_count = 5, heap = diamond_heap\<rparr>"
  by (simp add: diamond_graph_def FunctionBase_apply_def apply_run_def hooks
        variable_def Variable_init_def initial_def requires_grad_def History_init_def
        Let_def digit_char_def Context_init_def diamond_heap_def eval_nat_numeral)

lemma mixed_graph_eq: "mixed_graph = Inr \<lparr>variable_count = 4, heap = mixed_heap\<rparr>"
  by (simp add: mixed_graph_def FunctionBase_apply_def apply_run_def hooks
        variable_def Variable_init_def initial_def requires_grad_def History_init_def
        Let_def digit_char_def Context_init_def mixed_heap_def eval_nat_numeral)

subsection \<open>chain_rule\<close>

lemma chain_rule_loop_eq:
  "chain_rule_loop h ins bv idx result =
     (if \<exists>i\<in>set idx. \<not> is_constant h (ins ! i) \<and> length bv \<le> i then Inl IndexError
      else Inr (result @ map (\<lambda>i. (case ins ! i of Var r \<Rightarrow> r | Raw _ \<Rightarrow> 0,
                                    bv ! i))
                          (filter (\<lambda>i. \<not> is_constant h (ins ! i)) idx)))"
proof (induction idx arbitrary: result)
  case Nil
  then show ?case by simp
next
  case (Cons i rest)
  show ?case
  proof (cases "ins ! i")
    case (Var r)
    then show ?thesis using Cons.IH
      by (auto simp: is_constant_def expand_def not_le)
  next
    case (Raw x)
    then show ?thesis using Cons.IH by (simp add: is_constant_def)
  qed
qed

lemma chain_rule_eq:
  assumes "backward cls c d = Inr bv"
  shows "chain_rule cls c (Some ins) d h =
     (if \<exists>i<length ins. \<not> is_constant h (ins ! i) \<and> length (wrap_tuple bv) \<le> i then Inl IndexError
      else Inr (map (\<lambda>i. (case ins ! i of Var r \<Rightarrow> r | Raw _ \<Rightarrow> 0, wrap_tuple bv ! i))
                          (filter (\<lambda>i. \<not> is_constant h (ins ! i)) [0..<length ins])))"
  using assms by (auto simp: chain_rule_def chain_rule_loop_eq Let_def)

lemma filter_nth_upt:
  "map ((!) xs) (filter (\<lambda>i. P (xs ! i)) [0..<length xs]) = filter P xs"
proof -
  have "filter P (map ((!) xs) [0..<length xs]) = filter P xs"
    by (simp add: map_nth)
  then show ?thesis by (simp add: filter_map comp_def)
qed

lemma chain_rule_loop_tracked:
  assumes "chain_rule_loop h ins bv idx res = Inr out"
    and "\<forall>p\<in>set res. history (h (fst p)) \<noteq> None"
  shows "\<forall>p\<in>set out. history (h (fst p)) \<noteq> None"
  using assms
proof (induction idx arbitrary: res)
  case Nil
  then show ?case by simp
next
  case (Cons i rest)
  show ?case
  proof (cases "is_constant h (ins ! i)")
    case True
    with Cons show ?thesis by simp
  next
    case False
    then obtain r where r: "ins ! i = Var r" "history (h r) \<noteq> None"
      by (cases "ins ! i") (simp_all add: is_constant_def)
    with Cons.prems False have
      "chain_rule_loop h ins bv rest (res @ [(r, expand (h r) (bv ! i))]) = Inr out"
      by (simp split: if_splits)
    moreover have "\<forall>p\<in>set (res @ [(r, expand (h r) (bv ! i))]). history (h (fst p)) \<noteq> None"
      using Cons.prems(2) r by simp
    ultimately show ?thesis by (rule Cons.IH)
  qed
qed

lemma chain_rule_tracked:
  assumes "chain_rule f co ins d h = Inr out"
  shows "\<forall>p\<in>set out. history (h (fst p)) \<noteq> None"
proof -
  from assms obtain bv xs where "chain_rule_loop h xs bv [0..<length xs] [] = Inr out"
    by (auto simp: chain_rule_def Let_def split: sum.splits option.splits)
  then show ?thesis by (rule chain_rule_loop_tracked) simp
qed

lemma chain_scale:
  assumes "history (h 2) \<noteq> None"
  shows "chain_rule (scale k) co (Some [Var 2]) d h = Inr [(2, k * d)]"
  using assms by (simp add: chain_rule_def hooks wrap_tuple_def is_constant_def expand_def)

lemma chain_add:
  assumes "history (h a) \<noteq> None"
  shows "chain_rule add co (Some [Var a, Var b]) d h =
           (if history (h b) = None then Inr [(a, d)] else Inr [(a, d), (b, d)])"
  using assms by (simp add: chain_rule_def hooks wrap_tuple_def is_constant_def expand_def upt_rec)

subsection \<open>Steps of backpropagate\<close>

lemma record_pairs_eq:
  "record_pairs h v_d (dd, q) =
     (foldl (\<lambda>m v. m(unique_id (h (fst v)) \<mapsto> snd v)) dd v_d, q @ map fst v_d)"
  by (induction v_d arbitrary: dd q) simp_all

lemma bp_step_finish:
  "bp_step \<lparr>queue = [], dict_deriv = dd, store = h, status = Running\<rparr> =
     \<lparr>queue = [], dict_deriv = dd, store = h, status = Finished\<rparr>"
  by (simp add: bp_step_def)

lemma bp_step_leaf:
  assumes "history (h r) = Some hist" "last_fn hist = None" "dd (unique_id (h r)) = Some d"
  shows "bp_step \<lparr>queue = r # q, dict_deriv = dd, store = h, status = Running\<rparr> =
     \<lparr>queue = q, dict_deriv = dd, store = accumulate_derivative r d h, status = Running\<rparr>"
  using assms by (simp add: bp_step_def is_leaf_def)

lemma bp_step_node:
  assumes "history (h r) = Some hist" "last_fn hist = Some f" "dd (unique_id (h r)) = Some d"
    "chain_rule f (ctx hist) (inputs hist) d h = Inr v_d"
  shows "bp_step \<lparr>queue = r # q, dict_deriv = dd, store = h, status = Running\<rparr> =
     \<lparr>queue = q @ map fst v_d,
      dict_deriv = foldl (\<lambda>m v. m(unique_id (h (fst v)) \<mapsto> snd v)) dd v_d,
      store = h, status = Running\<rparr>"
  using assms by (simp add: bp_step_def is_leaf_def record_pairs_eq)

lemma bp_run_stable: "status c \<noteq> Running \<Longrightarrow> bp_run n c = c"
  by (induction n) (simp_all add: bp_step_def)

lemma bp_run_add: "bp_run (m + n) c = bp_run n (bp_run m c)"
  by (induction m arbitrary: c) simp_all

lemma bp_run_3: "bp_run 3 c = bp_step (bp_step (bp_step c))"
  by (simp add: numeral_3_eq_3)

lemma bp_run_6: "bp_run 6 c = bp_step (bp_step (bp_step (bp_step (bp_step (bp_step c)))))"
  by (simp add: eval_nat_numeral)

lemma accumulate_history: "history (accumulate_derivative r d h x) = history (h x)"
  by (simp add: accumulate_derivative_def Let_def)

lemma accumulate_unique_id: "unique_id (accumulate_derivative r d h x) = unique_id (h x)"
  by (simp add: accumulate_derivative_def Let_def)

lemma accumulate_other: "x \<noteq> r \<Longrightarrow> accumulate_derivative r d h x = h x"
  by (simp add: accumulate_derivative_def Let_def)

lemma accumulate_value:
  "u_derivative (accumulate_derivative r d h r) =
     Some ((case u_derivative (h r) of None \<Rightarrow> 0 | Some v \<Rightarrow> v) + d)"
  by (simp add: accumulate_derivative_def Let_def zeros_def split: option.splits)

lemma bp_step_history: "history (store (bp_step c) x) = history (store c x)"
  by (simp add: bp_step_def Let_def accumulate_history
      split: list.splits sum.splits bool.splits option.splits prod.splits)

lemma bp_step_constant:
  assumes "history (store c x) = None"
  shows "u_derivative (store (bp_step c) x) = u_derivative (store c x)"
proof (cases "status c = Running \<and> queue c \<noteq> [] \<and> hd (queue c) = x")
  case True
  then obtain q where "queue c = x # q" by (cases "queue c") auto
  with True assms show ?thesis by (simp add: bp_step_def is_leaf_def Let_def)
next
  case False
  then show ?thesis
    by (auto simp: bp_step_def Let_def accumulate_other
        split: list.splits sum.splits bool.splits option.splits prod.splits)
qed

lemma bp_step_first:
  assumes run: "status c = Running"
    and rest: "\<forall>r\<in>set (tl (queue c)). history (store c r) \<noteq> None"
  shows "tracked_queue (bp_step c)"
proof (cases "queue c")
  case Nil
  then show ?thesis using run by (simp add: bp_step_def tracked_queue_def)
next
  case (Cons v q)
  with rest have q: "\<forall>r\<in>set q. history (store c r) \<noteq> None" by simp
  have sub: "set (queue (bp_step c)) \<subseteq> set q \<union> {r. history (store c r) \<noteq> None}"
    using run Cons
    by (auto simp: bp_step_def Let_def record_pairs_eq
        split: sum.splits bool.splits option.splits dest!: chain_rule_tracked)
  show ?thesis
    unfolding tracked_queue_def bp_step_history using sub q by auto
qed

lemma bp_step_tracked: "tracked_queue c \<Longrightarrow> tracked_queue (bp_step c)"
proof (cases "status c = Running")
  case True
  assume "tracked_queue c"
  then have "\<forall>r\<in>set (tl (queue c)). history (store c r) \<noteq> None"
    by (cases "queue c") (simp_all add: tracked_queue_def)
  with True show ?thesis by (rule bp_step_first)
next
  case False
  assume "tracked_queue c"
  with False show ?thesis by (simp add: bp_step_def)
qed

lemma bp_run_tracked: "tracked_queue c \<Longrightarrow> tracked_queue (bp_run n c)"
  by (induction n arbitrary: c) (simp_all add: bp_step_tracked)

lemma bp_run_history: "history (store (bp_run n c) x) = history (store c x)"
  by (induction n arbitrary: c) (simp_all add: bp_step_history)

lemma bp_run_constant:
  "history (store c x) = None \<Longrightarrow> u_derivative (store (bp_run n c) x) = u_derivative (store c x)"
  by (induction n arbitrary: c) (simp_all add: bp_step_constant bp_step_history)

subsection \<open>The runs of the concrete programs\<close>

lemma square_backward_run:
  assumes b: "history (h 3) = Some \<lparr>last_fn = Some square,
                               ctx = Some \<lparr>u_saved_values = Some [2], no_grad = False\<rparr>,
                               inputs = Some [Var 2]\<rparr>"
    and a: "history (h 2) = Some \<lparr>last_fn = None, ctx = None, inputs = None\<rparr>"
    and ids: "unique_id (h 3) = ''Variable3''" "unique_id (h 2) = ''Variable2''"
  shows "backpropagate (3 + k) 3 1 h =
     \<lparr>queue = [], dict_deriv = [''Variable3'' \<mapsto> 1, ''Variable2'' \<mapsto> 4],
      store = accumulate_derivative 2 4 h, status = Finished\<rparr>"
proof -
  let ?hist = "\<lparr>last_fn = Some square,
                ctx = Some \<lparr>u_saved_values = Some [2], no_grad = False\<rparr>,
                inputs = Some [Var 2]\<rparr>"
  let ?d = "[''Variable3'' \<mapsto> (1::real), ''Variable2'' \<mapsto> 4]"
  have cr: "chain_rule square (Some \<lparr>u_saved_values = Some [2], no_grad = False\<rparr>)
              (Some [Var 2]) 1 h = Inr [(2, 4)]"
    using a by (simp add: chain_rule_def hooks saved_values_def unwrap_tuple_def
        wrap_tuple_def is_constant_def expand_def)
  have s1: "bp_step (bp_start 3 1 h) = \<lparr>queue = [2], dict_deriv = ?d, store = h, status = Running\<rparr>"
    unfolding bp_start_def
    by (subst bp_step_node [where hist = ?hist and f = square and d = 1 and v_d = "[(2, 4)]"])
       (simp_all add: b ids cr)
  have s2: "bp_step \<lparr>queue = [2], dict_deriv = ?d, store = h, status = Running\<rparr> =
      \<lparr>queue = [], dict_deriv = ?d, store = accumulate_derivative 2 4 h, status = Running\<rparr>"
    by (subst bp_step_leaf [where hist = "\<lparr>last_fn = None, ctx = None, inputs = None\<rparr>" and d = 4])
       (simp_all add: a ids)
  have "bp_run 3 (bp_start 3 1 h) =
      \<lparr>queue = [], dict_deriv = ?d, store = accumulate_derivative 2 4 h, status = Finished\<rparr>"
    by (simp add: bp_run_3 s1 s2 bp_step_finish)
  then show ?thesis
    by (simp add: backpropagate_def bp_run_add bp_run_stable)
qed

lemma diamond_backward:
  "backpropagate (6 + k) 5 1 diamond_heap =
     \<lparr>queue = [],
      dict_deriv = [''Variable5'' \<mapsto> 1, ''Variable3'' \<mapsto> 1, ''Variable4'' \<mapsto> 1,
                    ''Variable2'' \<mapsto> 3],
      store = accumulate_derivative 2 3 (accumulate_derivative 2 3 diamond_heap),
      status = Finished\<rparr>"
proof -
  let ?h = diamond_heap
  let ?h1 = "accumulate_derivative 2 3 ?h"
  let ?ctx = "Some \<lparr>u_saved_values = None, no_grad = False\<rparr>"
  have x: "history (?h 2) = Some \<lparr>last_fn = None, ctx = None, inputs = None\<rparr>"
    and y: "history (?h 3) = Some \<lparr>last_fn = Some (scale 2), ctx = ?ctx, inputs = Some [Var 2]\<rparr>"
    and z: "history (?h 4) = Some \<lparr>last_fn = Some (scale 3), ctx = ?ctx, inputs = Some [Var 2]\<rparr>"
    and w: "history (?h 5) = Some \<lparr>last_fn = Some add, ctx = ?ctx, inputs = Some [Var 3, Var 4]\<rparr>"
    and ids: "unique_id (?h 2) = ''Variable2''" "unique_id (?h 3) = ''Variable3''"
             "unique_id (?h 4) = ''Variable4''" "unique_id (?h 5) = ''Variable5''"
    by (simp_all add: diamond_heap_def)
  have x1: "history (?h1 2) = Some \<lparr>last_fn = None, ctx = None, inputs = None\<rparr>"
    and id1: "unique_id (?h1 2) = ''Variable2''"
    using x ids by (simp_all add: accumulate_history accumulate_unique_id)
  let ?d1 = "[''Variable5'' \<mapsto> (1::real), ''Variable3'' \<mapsto> 1, ''Variable4'' \<mapsto> 1]"
  let ?d2 = "[''Variable5'' \<mapsto> (1::real), ''Variable3'' \<mapsto> 1, ''Variable4'' \<mapsto> 1,
              ''Variable2'' \<mapsto> 2]"
  let ?d3 = "[''Variable5'' \<mapsto> (1::real), ''Variable3'' \<mapsto> 1, ''Variable4'' \<mapsto> 1,
              ''Variable2'' \<mapsto> 3]"
  have s1: "bp_step (bp_start 5 1 ?h) = \<lparr>queue = [3, 4], dict_deriv = ?d1, store = ?h, status = Running\<rparr>"
    unfolding bp_start_def
    by (subst bp_step_node [where h = diamond_heap and r = 5 and f = add and d = 1
                              and v_d = "[(3, 1), (4, 1)]", OF w])
       (simp_all add: ids chain_add y z)
  have s2: "bp_step \<lparr>queue = [3, 4], dict_deriv = ?d1, store = ?h, status = Running\<rparr> =
      \<lparr>queue = [4, 2], dict_deriv = ?d2, store = ?h, status = Running\<rparr>"
    by (subst bp_step_node [where h = diamond_heap and r = 3 and f = "scale 2" and d = 1
                              and v_d = "[(2, 2)]", OF y])
       (simp_all add: ids chain_scale x)
  have s3: "bp_step \<lparr>queue = [4, 2], dict_deriv = ?d2, store = ?h, status = Running\<rparr> =
      \<lparr>queue = [2, 2], dict_deriv = ?d3, store = ?h, status = Running\<rparr>"
    by (subst bp_step_node [where h = diamond_heap and r = 4 and f = "scale 3" and d = 1
                              and v_d = "[(2, 3)]", OF z])
       (simp_all add: ids chain_scale x)
  have s4: "bp_step \<lparr>queue = [2, 2], dict_deriv = ?d3, store = ?h, status = Running\<rparr> =
      \<lparr>queue = [2], dict_deriv = ?d3, store = ?h1, status = Running\<rparr>"
    by (subst bp_step_leaf [where h = diamond_heap and r = 2 and d = 3, OF x]) (simp_all add: ids)
  have s5: "bp_step \<lparr>queue = [2], dict_deriv = ?d3, store = ?h1, status = Running\<rparr> =
      \<lparr>queue = [], dict_deriv = ?d3, store = accumulate_derivative 2 3 ?h1, status = Running\<rparr>"
    by (subst bp_step_leaf [where h = "accumulate_derivative 2 3 diamond_heap" and r = 2
                              and d = 3, OF x1])
       (simp_all add: id1)
  have "bp_run 6 (bp_start 5 1 ?h) =
      \<lparr>queue = [], dict_deriv = ?d3, store = accumulate_derivative 2 3 ?h1, status = Finished\<rparr>"
    by (simp add: bp_run_6 s1 s2 s3 s4 s5 bp_step_finish)
  then show ?thesis
    by (simp add: backpropagate_def bp_run_add bp_run_stable)
qed

lemma mixed_backward:
  "backpropagate (3 + k) 4 1 mixed_heap =
     \<lparr>queue = [], dict_deriv = [''Variable4'' \<mapsto> 1, ''Variable2'' \<mapsto> 1],
      store = accumulate_derivative 2 1 mixed_heap, status = Finished\<rparr>"
proof -
  let ?h = mixed_heap
  let ?ctx = "Some \<lparr>u_saved_values = None, no_grad = False\<rparr>"
  let ?d = "[''Variable4'' \<mapsto> (1::real), ''Variable2'' \<mapsto> 1]"
  have p: "history (?h 2) = Some \<lparr>last_fn = None, ctx = None, inputs = None\<rparr>"
    and q: "history (?h 3) = None"
    and r: "history (?h 4) = Some \<lparr>last_fn = Some add, ctx = ?ctx, inputs = Some [Var 2, Var 3]\<rparr>"
    and ids: "unique_id (?h 2) = ''Variable2''" "unique_id (?h 4) = ''Variable4''"
    by (simp_all add: mixed_heap_def)
  have s1: "bp_step (bp_start 4 1 ?h) = \<lparr>queue = [2], dict_deriv = ?d, store = ?h, status = Running\<rparr>"
    unfolding bp_start_def
    by (subst bp_step_node [where h = mixed_heap and r = 4 and f = add and d = 1
                              and v_d = "[(2, 1)]", OF r])
       (simp_all add: ids chain_add p q)
  have s2: "bp_step \<lparr>queue = [2], dict_deriv = ?d, store = ?h, status = Running\<rparr> =
      \<lparr>queue = [], dict_deriv = ?d, store = accumulate_derivative 2 1 ?h, status = Running\<rparr>"
    by (subst bp_step_leaf [where h = mixed_heap and r = 2 and d = 1, OF p]) (simp_all add: ids)
  have "bp_run 3 (bp_start 4 1 ?h) =
      \<lparr>queue = [], dict_deriv = ?d, store = accumulate_derivative 2 1 ?h, status = Finished\<rparr>"
    by (simp add: bp_run_3 s1 s2 bp_step_finish)
  then show ?thesis
    by (simp add: backpropagate_def bp_run_add bp_run_stable)
qed

section \<open>The claims\<close>

text \<open>
  C1. Diamond dependency: with \<open>y = f(x)\<close>, \<open>z = g(x)\<close>, \<open>w = h(y, z)\<close> and \<open>x\<close> a
  grad-tracked leaf, \<open>backward(w)\<close> should leave in \<open>x.derivative\<close> the sum of the
  contributions of both paths, adding each contribution to the pending entry. The code
  does not: on the diamond with \<open>f = scale 2\<close>, \<open>g = scale 3\<close>, \<open>h = add\<close> the two
  contributions to \<open>x\<close> are 2 and 3, the second assignment
  \<open>dict_deriv[x.unique_id] = 3\<close> replaces the first, \<open>x\<close> is dequeued twice, and
  \<open>x.derivative\<close> ends as 6 instead of 5.
\<close>

theorem diamond_derivative_overwritten:
  "\<exists>s hy hz. diamond_graph = Inr s
     \<and> history (heap s 3) = Some hy \<and> history (heap s 4) = Some hz
     \<and> backprop_step hy 1 (heap s) = Inr [(2, 2)]
     \<and> backprop_step hz 1 (heap s) = Inr [(2, 3)]
     \<and> status (Variable_backward (6 + k) 5 None (heap s)) = Finished
     \<and> dict_deriv (Variable_backward (6 + k) 5 None (heap s)) ''Variable2'' = Some 3
     \<and> derivative (store (Variable_backward (6 + k) 5 None (heap s)) 2) = Some 6"
proof -
  let ?ctx = "Some \<lparr>u_saved_values = None, no_grad = False\<rparr>"
  let ?hy = "\<lparr>last_fn = Some (scale 2), ctx = ?ctx, inputs = Some [Var 2]\<rparr>"
  let ?hz = "\<lparr>last_fn = Some (scale 3), ctx = ?ctx, inputs = Some [Var 2]\<rparr>"
  have x: "history (diamond_heap 2) \<noteq> None" and d0: "u_derivative (diamond_heap 2) = None"
    and y: "history (diamond_heap 3) = Some ?hy" and z: "history (diamond_heap 4) = Some ?hz"
    by (simp_all add: diamond_heap_def)
  have py: "backprop_step ?hy 1 diamond_heap = Inr [(2, 2)]"
    and pz: "backprop_step ?hz 1 diamond_heap = Inr [(2, 3)]"
    using x by (simp_all add: backprop_step_def chain_scale)
  have run: "Variable_backward (6 + k) 5 None diamond_heap =
     \<lparr>queue = [],
      dict_deriv = [''Variable5'' \<mapsto> 1, ''Variable3'' \<mapsto> 1, ''Variable4'' \<mapsto> 1,
                    ''Variable2'' \<mapsto> 3],
      store = accumulate_derivative 2 3 (accumulate_derivative 2 3 diamond_heap),
      status = Finished\<rparr>"
    by (simp add: Variable_backward_def diamond_backward)
  have der: "derivative (accumulate_derivative 2 3 (accumulate_derivative 2 3 diamond_heap) 2) = Some 6"
    by (simp add: derivative_def accumulate_value d0)
  have "diamond_graph = Inr \<lparr>variable_count = 5, heap = diamond_heap\<rparr>
     \<and> history (heap \<lparr>variable_count = 5, heap = diamond_heap\<rparr> 3) = Some ?hy
     \<and> history (heap \<lparr>variable_count = 5, heap = diamond_heap\<rparr> 4) = Some ?hz
     \<and> backprop_step ?hy 1 (heap \<lparr>variable_count = 5, heap = diamond_heap\<rparr>) = Inr [(2, 2)]
     \<and> backprop_step ?hz 1 (heap \<lparr>variable_count = 5, heap = diamond_heap\<rparr>) = Inr [(2, 3)]
     \<and> status (Variable_backward (6 + k) 5 None (heap \<lparr>variable_count = 5, heap = diamond_heap\<rparr>)) = Finished
     \<and> dict_deriv (Variable_backward (6 + k) 5 None (heap \<lparr>variable_count = 5, heap = diamond_heap\<rparr>)) ''Variable2'' = Some 3
     \<and> derivative (store (Variable_backward (6 + k) 5 None (heap \<lparr>variable_count = 5, heap = diamond_heap\<rparr>)) 2) = Some 6"
    by (simp add: diamond_graph_eq y z py pz run der)
  then show ?thesis by blast
qed

text \<open>
  C2, as amended. For every node whose history is set, \<open>is_leaf()\<close> returns true if and
  only if the history has no \<open>last_fn\<close>: it returns true for a node made grad-tracked by
  \<open>requires_grad_\<close>, and false for a node that \<open>apply\<close> produced with a History.
\<close>

theorem is_leaf_with_history:
  "(history v = Some hist \<longrightarrow> is_leaf v = Inr (last_fn hist = None))
 \<and> is_leaf (requires_grad r val h r) = Inr True
 \<and> (apply_run cls vals s = Inr (c, s', r') \<and> history (heap s' r') \<noteq> None \<longrightarrow>
       is_leaf (heap s' r') = Inr False)"
proof -
  have "is_leaf (heap s' r') = Inr False"
    if a: "apply_run cls vals s = Inr (c, s', r')" and b: "history (heap s' r') \<noteq> None"
    using apply_run_history [OF a] b
    by (simp add: is_leaf_def History_init_def split: if_splits)
  then show ?thesis
    by (auto simp: is_leaf_def requires_grad_def History_init_def)
qed

theorem is_leaf_with_history_witness:
  "history (tracked_heap 2) = Some \<lparr>last_fn = None, ctx = None, inputs = None\<rparr>
 \<and> is_leaf (tracked_heap 2) = Inr True
 \<and> apply_run square [Var 2] tracked_state =
       Inr (\<lparr>u_saved_values = Some [2], no_grad = False\<rparr>,
            \<lparr>variable_count = 3, heap = square_heap\<rparr>, 3)
 \<and> history (square_heap 3) \<noteq> None
 \<and> is_leaf (square_heap 3) = Inr False"
  using is_leaf_with_history [of "tracked_heap 2" "\<lparr>last_fn = None, ctx = None, inputs = None\<rparr>"
          2 True tracked_heap square "[Var 2]" tracked_state
          "\<lparr>u_saved_values = Some [2], no_grad = False\<rparr>"
          "\<lparr>variable_count = 3, heap = square_heap\<rparr>" 3]
        square_apply_run
  by (simp add: tracked_heap_2 square_heap_def)

text \<open>
  The claim as first stated fails in both directions: the user-created variable \<open>a\<close> has no history
  and \<open>is_leaf\<close> does not return true on it, and after \<open>requires_grad_\<close> it has a
  history and \<open>is_leaf\<close> returns true.
\<close>

theorem is_leaf_iff_no_history_counterexample:
  "history (heap leaf_state 2) = None \<and> is_leaf (heap leaf_state 2) \<noteq> Inr True
 \<and> history (tracked_heap 2) \<noteq> None \<and> is_leaf (tracked_heap 2) = Inr True"
  by (simp add: tracked_heap_2 leaf_state_eq is_leaf_def)

text \<open>
  C3, as amended. \<open>chain_rule\<close> makes no arity check. With the result of \<open>backward\<close>
  normalised to a sequence, it reads \<open>backward_val[i]\<close> only at the positions of the
  non-constant inputs; it raises \<open>IndexError\<close> exactly when a non-constant input sits
  at a position at or beyond the number of gradients, and returns normally otherwise,
  in particular whenever there are at least as many gradients as inputs.
\<close>

theorem chain_rule_index_error:
  assumes "backward cls c d = Inr bv"
  shows "((\<exists>i<length ins. \<not> is_constant h (ins ! i) \<and> length (wrap_tuple bv) \<le> i) \<longrightarrow>
            chain_rule cls c (Some ins) d h = Inl IndexError)
       \<and> (\<not> (\<exists>i<length ins. \<not> is_constant h (ins ! i) \<and> length (wrap_tuple bv) \<le> i) \<longrightarrow>
            (\<exists>result. chain_rule cls c (Some ins) d h = Inr result))
       \<and> (length ins \<le> length (wrap_tuple bv) \<longrightarrow>
            (\<exists>result. chain_rule cls c (Some ins) d h = Inr result))"
  using chain_rule_eq [OF assms, of ins h] by auto

theorem chain_rule_index_error_witness:
  "backward (scale 2) None 1 = Inr (Single 2)
 \<and> (\<exists>i<length [Raw 7, Var 2]. \<not> is_constant tracked_heap ([Raw 7, Var 2] ! i)
        \<and> length (wrap_tuple (Single 2)) \<le> i)
 \<and> chain_rule (scale 2) None (Some [Raw 7, Var 2]) 1 tracked_heap = Inl IndexError
 \<and> length [Var 2] \<le> length (wrap_tuple (Single 2))
 \<and> (\<exists>result. chain_rule (scale 2) None (Some [Var 2]) 1 tracked_heap = Inr result)"
proof -
  have bw: "backward (scale 2) None 1 = Inr (Single 2)" by (simp add: hooks)
  have "(1::nat) < length [Raw 7, Var 2] \<and> \<not> is_constant tracked_heap ([Raw 7, Var 2] ! 1)
        \<and> length (wrap_tuple (Single 2)) \<le> 1"
    by (simp add: is_constant_def tracked_heap_2 wrap_tuple_def)
  then have bad: "\<exists>i<length [Raw 7, Var 2]. \<not> is_constant tracked_heap ([Raw 7, Var 2] ! i)
        \<and> length (wrap_tuple (Single 2)) \<le> i" by blast
  have len: "length [Var 2] \<le> length (wrap_tuple (Single 2))" by (simp add: wrap_tuple_def)
  show ?thesis
    using chain_rule_index_error [OF bw, of "[Raw 7, Var 2]" tracked_heap]
          chain_rule_index_error [OF bw, of "[Var 2]" tracked_heap] bw bad len
    by blast
qed

text \<open>
  The claim as first stated fails: \<open>add.backward\<close> returns two gradients for the single input
  \<open>[a]\<close>, and \<open>scale.backward\<close> returns one gradient for the two inputs \<open>[a, 7]\<close>;
  the lengths differ and both calls return normally.
\<close>

theorem chain_rule_arity_counterexample:
  "backward add None 1 = Inr (Sequence [1, 1])
 \<and> length (wrap_tuple (Sequence [1, 1])) \<noteq> length [Var 2]
 \<and> chain_rule add None (Some [Var 2]) 1 tracked_heap = Inr [(2, 1)]
 \<and> backward (scale 2) None 1 = Inr (Single 2)
 \<and> length (wrap_tuple (Single 2)) \<noteq> length [Var 2, Raw 7]
 \<and> chain_rule (scale 2) None (Some [Var 2, Raw 7]) 1 tracked_heap = Inr [(2, 2)]"
  by (simp add: chain_rule_def hooks wrap_tuple_def is_constant_def expand_def tracked_heap_2
      upt_rec)

text \<open>
  C4. When every operand of \<open>apply\<close> is a constant, the returned node has no history,
  and reading \<open>saved_values\<close> on the context of that invocation fails with the
  assertion "Doesn't require grad" (for an operation whose \<open>forward\<close> touches the
  context only through \<open>save_for_backward\<close>). A History is built exactly when some
  operand is not constant, and then it holds the operation, the context and the
  original operands.
\<close>

theorem apply_constants_frozen:
  assumes run: "apply_run cls vals s = Inr (c, s', r)"
  shows "(history (heap s' r) = None \<longleftrightarrow> (\<forall>x\<in>set vals. is_constant (heap s) x))
       \<and> ((\<forall>x\<in>set vals. is_constant (heap s) x) \<and>
           (\<forall>c0 raws c1 y. forward cls c0 raws = Inr (c1, y) \<longrightarrow>
                (\<exists>calls. c1 = foldl save_for_backward c0 calls)) \<longrightarrow>
           saved_values c = Inl (AssertionError ''Doesn't require grad''))
       \<and> (history (heap s' r) \<noteq> None \<longrightarrow>
           history (heap s' r) = Some (History_init (Some cls) (Some c) (Some vals)))"
proof -
  have hist: "history (heap s' r) =
           (if \<forall>x\<in>set vals. is_constant (heap s) x then None
            else Some (History_init (Some cls) (Some c) (Some vals)))"
    by (rule apply_run_history [OF run])
  have "saved_values c = Inl (AssertionError ''Doesn't require grad'')"
    if allc: "\<forall>x\<in>set vals. is_constant (heap s) x"
      and contract: "\<forall>c0 raws c1 y. forward cls c0 raws = Inr (c1, y) \<longrightarrow>
                (\<exists>calls. c1 = foldl save_for_backward c0 calls)"
  proof -
    from apply_run_forward [OF run] allc obtain raws y
      where "forward cls (Context_init True) raws = Inr (c, y)" by auto
    with contract obtain calls where "c = foldl save_for_backward (Context_init True) calls"
      by blast
    then have "no_grad c" by (simp add: foldl_save_no_grad Context_init_def)
    then show ?thesis by (simp add: saved_values_def)
  qed
  with hist show ?thesis by auto
qed

theorem apply_constants_frozen_witness:
  "is_constant (heap initial) (Raw 3)
 \<and> (\<exists>s'. apply_run square [Raw 3] initial = Inr (Context_init True, s', 2)
         \<and> history (heap s' 2) = None)
 \<and> saved_values (Context_init True) = Inl (AssertionError ''Doesn't require grad'')
 \<and> history (square_heap 3) =
      Some (History_init (Some square) (Some \<lparr>u_saved_values = Some [2], no_grad = False\<rparr>)
              (Some [Var 2]))"
  using apply_constants_frozen [OF square_const_run] square_contract square_const_run
        apply_constants_frozen [OF square_apply_run]
  by (simp add: is_constant_def square_heap_def)

text \<open>
  C5. With the grad-tracked leaf \<open>a = 2.0\<close> and \<open>b = square(a)\<close>, \<open>backward(b)\<close> with
  seed 1.0 ends with \<open>a.derivative = 4.0\<close>, and a second \<open>backward(b)\<close> with seed 1.0
  ends with \<open>a.derivative = 8.0\<close>. Three loop steps suffice for each call, and more
  change nothing.
\<close>

theorem square_backward_twice:
  "square_twice (3 + k) = Inr (Finished, Some 4, Finished, Some 8)"
proof -
  let ?h1 = "accumulate_derivative 2 4 square_heap"
  let ?d = "[''Variable3'' \<mapsto> (1::real), ''Variable2'' \<mapsto> 4]"
  have b: "history (square_heap 3) = Some \<lparr>last_fn = Some square,
                               ctx = Some \<lparr>u_saved_values = Some [2], no_grad = False\<rparr>,
                               inputs = Some [Var 2]\<rparr>"
    and a: "history (square_heap 2) = Some \<lparr>last_fn = None, ctx = None, inputs = None\<rparr>"
    and ids: "unique_id (square_heap 3) = ''Variable3''" "unique_id (square_heap 2) = ''Variable2''"
    and d0: "u_derivative (square_heap 2) = None"
    by (simp_all add: square_heap_def)
  have r1: "backpropagate (3 + k) 3 1 square_heap =
      \<lparr>queue = [], dict_deriv = ?d, store = ?h1, status = Finished\<rparr>"
    by (rule square_backward_run [OF b a ids])
  have r2: "backpropagate (3 + k) 3 1 ?h1 =
      \<lparr>queue = [], dict_deriv = ?d, store = accumulate_derivative 2 4 ?h1, status = Finished\<rparr>"
    by (rule square_backward_run) (simp_all add: accumulate_history accumulate_unique_id b a ids)
  have v1: "derivative (?h1 2) = Some 4"
    by (simp add: derivative_def accumulate_value d0)
  have v2: "derivative (accumulate_derivative 2 4 ?h1 2) = Some 8"
    by (simp add: derivative_def accumulate_value d0)
  show ?thesis
    by (simp add: square_twice_def square_apply Variable_backward_def r1 r2 v1 v2)
qed

text \<open>
  C6. \<open>saved_values\<close> fails with an assertion if \<open>no_grad\<close> is true, fails with an
  assertion if nothing was ever saved, and otherwise returns the stored sequence, a
  sequence of one element unwrapped to that element. \<open>save_for_backward\<close> does nothing
  when \<open>no_grad\<close> is true and otherwise replaces what was saved before.
\<close>

theorem saved_values_contract:
  "(no_grad c \<longrightarrow> saved_values c = Inl (AssertionError ''Doesn't require grad''))
 \<and> (\<not> no_grad c \<and> u_saved_values c = None \<longrightarrow>
       saved_values c = Inl (AssertionError ''Did you forget to save values?''))
 \<and> (\<not> no_grad c \<and> u_saved_values c = Some [v] \<longrightarrow> saved_values c = Inr (Lone v))
 \<and> (\<not> no_grad c \<and> u_saved_values c = Some vs \<and> length vs \<noteq> 1 \<longrightarrow>
       saved_values c = Inr (Tuple vs))
 \<and> (no_grad c \<longrightarrow> save_for_backward c ws = c)
 \<and> (\<not> no_grad c \<longrightarrow>
       u_saved_values (save_for_backward (save_for_backward c ws0) ws) = Some ws
     \<and> no_grad (save_for_backward c ws) = no_grad c)
 \<and> u_saved_values (Context_init ng) = None"
  by (simp add: saved_values_def save_for_backward_def unwrap_tuple_def Context_init_def)

theorem saved_values_contract_witness:
  "saved_values (Context_init True) = Inl (AssertionError ''Doesn't require grad'')
 \<and> save_for_backward (Context_init True) [5] = Context_init True
 \<and> saved_values (Context_init False) = Inl (AssertionError ''Did you forget to save values?'')
 \<and> saved_values (save_for_backward (Context_init False) [7]) = Inr (Lone 7)
 \<and> saved_values (save_for_backward (save_for_backward (Context_init False) [7]) [8, 9])
      = Inr (Tuple [8, 9])"
  using saved_values_contract [of "Context_init True" 7 "[8, 9]" "[5]" "[7]" True]
        saved_values_contract [of "Context_init False" 7 "[8, 9]" "[8, 9]" "[7]" False]
        saved_values_contract [of "save_for_backward (Context_init False) [7]" 7 "[8, 9]"
          "[8, 9]" "[7]" False]
        saved_values_contract [of "save_for_backward (save_for_backward (Context_init False) [7]) [8, 9]"
          7 "[8, 9]" "[8, 9]" "[7]" False]
  by (simp add: Context_init_def save_for_backward_def)

text \<open>
  C7. When \<open>chain_rule\<close> returns, its pairs are, in order, the inputs that are not
  constant, each with \<open>expand\<close> of the gradient at the input's own position. An input
  is constant when it is not a variable or is a variable without history; a leaf made
  grad-tracked by \<open>requires_grad_\<close> is not constant and is kept.
\<close>

theorem chain_rule_pairs:
  assumes bw: "backward cls c d = Inr bv"
      and ok: "chain_rule cls c (Some ins) d h = Inr result"
  shows "map (\<lambda>p. Var (fst p)) result = filter (\<lambda>x. \<not> is_constant h x) ins
       \<and> list_all2 (\<lambda>p i. ins ! i = Var (fst p) \<and> snd p = expand (h (fst p)) (wrap_tuple bv ! i))
            result (filter (\<lambda>i. \<not> is_constant h (ins ! i)) [0..<length ins])
       \<and> (\<forall>x. is_constant h (Raw x))
       \<and> (\<forall>r. is_constant h (Var r) \<longleftrightarrow> history (h r) = None)
       \<and> (\<forall>r val. \<not> is_constant (requires_grad r val h) (Var r) \<and>
                    is_leaf (requires_grad r val h r) = Inr True)"
proof -
  let ?idx = "filter (\<lambda>i. \<not> is_constant h (ins ! i)) [0..<length ins]"
  let ?ref = "\<lambda>i. case ins ! i of Var r \<Rightarrow> r | Raw _ \<Rightarrow> 0"
  from chain_rule_eq [OF bw, of ins h] ok
  have res: "result = map (\<lambda>i. (?ref i, wrap_tuple bv ! i)) ?idx"
    by (simp split: if_splits)
  have var: "Var (?ref i) = ins ! i" if "i \<in> set ?idx" for i
    using that by (cases "ins ! i") (simp_all add: is_constant_def)
  have "map (\<lambda>p. Var (fst p)) result = map ((!) ins) ?idx"
    using var by (simp add: res comp_def)
  then have 1: "map (\<lambda>p. Var (fst p)) result = filter (\<lambda>x. \<not> is_constant h x) ins"
    by (simp add: filter_nth_upt [where P = "\<lambda>x. \<not> is_constant h x"])
  have 2: "list_all2 (\<lambda>p i. ins ! i = Var (fst p) \<and> snd p = expand (h (fst p)) (wrap_tuple bv ! i))
            result ?idx"
    unfolding res list_all2_map1 list_all2_same using var
    by (auto simp: expand_def)
  show ?thesis using 1 2
    by (simp add: is_constant_def requires_grad_def is_leaf_def History_init_def)
qed

theorem chain_rule_pairs_witness:
  "backward add None 1 = Inr (Sequence [1, 1])
 \<and> chain_rule add None (Some [Raw 7, Var 2]) 1 tracked_heap = Inr [(2, 1)]
 \<and> map (\<lambda>p. Var (fst p)) [(2, 1::real)] = filter (\<lambda>x. \<not> is_constant tracked_heap x) [Raw 7, Var 2]"
proof -
  have bw: "backward add None 1 = Inr (Sequence [1, 1])" by (simp add: hooks)
  have ok: "chain_rule add None (Some [Raw 7, Var 2]) 1 tracked_heap = Inr [(2, 1)]"
    by (simp add: chain_rule_def hooks wrap_tuple_def is_constant_def expand_def tracked_heap_2
        upt_rec)
  show ?thesis using conjunct1 [OF chain_rule_pairs [OF bw ok]] bw ok by simp
qed

text \<open>
  C8. In every state of a backward traversal, a variable that is constant (without
  history) keeps its derivative and stays constant, it is in the queue only if it is
  the starting variable and no step has run, and \<open>chain_rule\<close> never pairs it with a
  contribution. A raw value cannot be in the queue, which holds variables only.
\<close>

theorem constants_never_traversed:
  assumes const: "is_constant h (Var r)"
  shows "derivative (store (backpropagate n var deriv h) r) = derivative (h r)
       \<and> is_constant (store (backpropagate n var deriv h)) (Var r)
       \<and> (r \<in> set (queue (backpropagate n var deriv h)) \<longrightarrow> n = 0 \<and> r = var)
       \<and> (\<forall>f co ins d out. chain_rule f co ins d h = Inr out \<longrightarrow> r \<notin> fst ` set out)"
proof -
  from const have none: "history (h r) = None" by (simp add: is_constant_def)
  then have start: "history (store (bp_start var deriv h) r) = None"
    by (simp add: bp_start_def)
  have 1: "derivative (store (backpropagate n var deriv h) r) = derivative (h r)"
    using bp_run_constant [OF start, of n]
    by (simp add: backpropagate_def derivative_def bp_start_def)
  have hist: "history (store (backpropagate n var deriv h) r) = None"
    using start by (simp add: backpropagate_def bp_run_history)
  then have 2: "is_constant (store (backpropagate n var deriv h)) (Var r)"
    by (simp add: is_constant_def)
  have 3: "n = 0 \<and> r = var" if mem: "r \<in> set (queue (backpropagate n var deriv h))"
  proof (cases n)
    case 0
    with mem show ?thesis by (simp add: backpropagate_def bp_start_def)
  next
    case (Suc m)
    have "tracked_queue (bp_step (bp_start var deriv h))"
      by (rule bp_step_first) (simp_all add: bp_start_def)
    then have "tracked_queue (backpropagate n var deriv h)"
      using Suc by (simp add: backpropagate_def bp_run_tracked)
    with mem hist show ?thesis by (auto simp: tracked_queue_def)
  qed
  have 4: "r \<notin> fst ` set out" if "chain_rule f co ins d h = Inr out" for f co ins d out
    using chain_rule_tracked [OF that] none by auto
  from 1 2 3 4 show ?thesis by blast
qed

theorem constants_never_traversed_witness:
  "mixed_graph = Inr \<lparr>variable_count = 4, heap = mixed_heap\<rparr>
 \<and> is_constant mixed_heap (Var 3)
 \<and> status (backpropagate 3 4 1 mixed_heap) = Finished
 \<and> derivative (store (backpropagate 3 4 1 mixed_heap) 2) = Some 1
 \<and> derivative (store (backpropagate 3 4 1 mixed_heap) 3) = None
 \<and> 3 \<notin> set (queue (backpropagate 1 4 1 mixed_heap))"
proof -
  have c: "is_constant mixed_heap (Var 3)" and d3: "derivative (mixed_heap 3) = None"
    and d2: "u_derivative (mixed_heap 2) = None"
    by (simp_all add: is_constant_def mixed_heap_def derivative_def)
  have run: "backpropagate 3 4 1 mixed_heap =
     \<lparr>queue = [], dict_deriv = [''Variable4'' \<mapsto> 1, ''Variable2'' \<mapsto> 1],
      store = accumulate_derivative 2 1 mixed_heap, status = Finished\<rparr>"
    using mixed_backward [of 0] by simp
  have v: "derivative (accumulate_derivative 2 1 mixed_heap 2) = Some 1"
    by (simp add: derivative_def accumulate_value d2)
  show ?thesis
    using constants_never_traversed [OF c, of 3 4 1] constants_never_traversed [OF c, of 1 4 1]
    by (simp add: mixed_graph_eq c d3 run v)
qed

text \<open>
  C9. For every variable whose history is \<open>None\<close>, \<open>is_leaf()\<close> does not return a
  boolean but raises \<open>AttributeError\<close>; such is the node that \<open>apply\<close> returns when
  every operand is constant.
\<close>

theorem is_leaf_fails_without_history:
  "(history v = None \<longrightarrow> is_leaf v = Inl AttributeError)
 \<and> (FunctionBase_apply cls vals s = Inr (s', r) \<and> (\<forall>x\<in>set vals. is_constant (heap s) x) \<longrightarrow>
       history (heap s' r) = None \<and> is_leaf (heap s' r) = Inl AttributeError)"
proof -
  have "is_leaf (heap s' r) = Inl AttributeError \<and> history (heap s' r) = None"
    if a: "FunctionBase_apply cls vals s = Inr (s', r)" and b: "\<forall>x\<in>set vals. is_constant (heap s) x"
  proof -
    from apply_run_of_apply [OF a] obtain c where "apply_run cls vals s = Inr (c, s', r)" ..
    from apply_run_history [OF this] b have "history (heap s' r) = None" by simp
    then show ?thesis by (simp add: is_leaf_def)
  qed
  then show ?thesis by (auto simp: is_leaf_def)
qed

theorem is_leaf_fails_without_history_witness:
  "history blank = None \<and> is_leaf blank = Inl AttributeError
 \<and> is_constant (heap initial) (Raw 3)
 \<and> (\<exists>s'. FunctionBase_apply square [Raw 3] initial = Inr (s', 2)
        \<and> is_leaf (heap s' 2) = Inl AttributeError)"
proof -
  let ?s = "\<lparr>variable_count = 2,
           heap = (\<lambda>_. blank)(2 := \<lparr>history = None, u_derivative = None, unique_id = ''Variable2'',
                                name = ''Variable2'', used = 0, get_data = 9\<rparr>)\<rparr>"
  have ap: "FunctionBase_apply square [Raw 3] initial = Inr (?s, 2)"
    by (simp add: FunctionBase_apply_def square_const_run)
  have cs: "\<forall>x\<in>set [Raw 3]. is_constant (heap initial) x" by (simp add: is_constant_def)
  have b: "history blank = None" by (simp add: blank_def)
  from is_leaf_fails_without_history [of blank square "[Raw 3]" initial ?s 2] ap cs b
  have "is_leaf blank = Inl AttributeError \<and> is_leaf (heap ?s 2) = Inl AttributeError"
    by blast
  moreover have "is_constant (heap initial) (Raw 3)" by (simp add: is_constant_def)
  ultimately show ?thesis using ap b by blast
qed

text \<open>
  C10. \<open>requires_grad_(val)\<close> ignores \<open>val\<close>: for either value it installs a fresh
  empty History, so the variable becomes a grad-tracked leaf, an \<open>apply\<close> that consumes
  it sets \<open>need_grad\<close>, and the node that \<open>apply\<close> returns has a history.
\<close>

theorem requires_grad_ignores_val:
  "requires_grad r val h = requires_grad r False h
 \<and> history (requires_grad r val h r) = Some (History_init None None None)
 \<and> is_leaf (requires_grad r val h r) = Inr True
 \<and> (Var r \<in> set vals \<longrightarrow> fst (snd (apply_loop vals ([], False, requires_grad r val h))))
 \<and> (Var r \<in> set vals \<and> heap s = requires_grad r val h \<and>
      FunctionBase_apply cls vals s = Inr (s', r') \<longrightarrow> history (heap s' r') \<noteq> None)"
proof -
  have nc: "\<not> is_constant (requires_grad r val h) (Var r)"
    by (simp add: is_constant_def requires_grad_def)
  have "history (heap s' r') \<noteq> None"
    if a: "Var r \<in> set vals" and b: "heap s = requires_grad r val h"
      and c: "FunctionBase_apply cls vals s = Inr (s', r')"
  proof -
    from apply_run_of_apply [OF c] obtain c1 where "apply_run cls vals s = Inr (c1, s', r')" ..
    from apply_run_history [OF this] a b nc show ?thesis by auto
  qed
  moreover have "Var r \<in> set vals \<Longrightarrow> fst (snd (apply_loop vals ([], False, requires_grad r val h)))"
    using nc by (auto simp: apply_loop_need_grad)
  ultimately show ?thesis
    by (auto simp: requires_grad_def is_leaf_def History_init_def)
qed

theorem requires_grad_ignores_val_witness:
  "requires_grad 2 True (heap leaf_state) = requires_grad 2 False (heap leaf_state)
 \<and> Var 2 \<in> set [Var 2]
 \<and> fst (snd (apply_loop [Var 2] ([], False, requires_grad 2 False (heap leaf_state))))
 \<and> FunctionBase_apply square [Var 2] (leaf_state\<lparr>heap := requires_grad 2 False (heap leaf_state)\<rparr>)
      = Inr (\<lparr>variable_count = 3, heap = square_heap\<rparr>, 3)
 \<and> history (square_heap 3) \<noteq> None"
proof -
  have same: "requires_grad 2 False (heap leaf_state) = tracked_heap"
    by (simp add: tracked_heap_def requires_grad_def)
  have ap: "FunctionBase_apply square [Var 2] (leaf_state\<lparr>heap := requires_grad 2 False (heap leaf_state)\<rparr>)
      = Inr (\<lparr>variable_count = 3, heap = square_heap\<rparr>, 3)"
    using square_apply by (simp add: same tracked_state_def)
  have hp: "heap (leaf_state\<lparr>heap := requires_grad 2 False (heap leaf_state)\<rparr>)
              = requires_grad 2 False (heap leaf_state)" by simp
  have mem: "Var 2 \<in> set [Var 2]" by simp
  from requires_grad_ignores_val [of 2 True "heap leaf_state" "[Var 2]"]
       requires_grad_ignores_val [of 2 False "heap leaf_state" "[Var 2]"
          "leaf_state\<lparr>heap := requires_grad 2 False (heap leaf_state)\<rparr>" square
          "\<lparr>variable_count = 3, heap = square_heap\<rparr>" 3] ap hp mem
  show ?thesis by (simp del: set_simps list.set)
qed

end
